theory Spec2Isabelle
  imports Main "HOL-Library.Multiset" "HOL-Library.Product_Lexorder"
begin

section \<open>Data model of index.js\<close>

text \<open>
  Everything the script can throw or that can reject one of its promises.
  \<^item> \<open>QueryFailed\<close>: \<^verbatim>\<open>tokenContract.queryFilter\<close> rejected (provider or network
    failure), carrying the provider's message;
  \<^item> \<open>Overflow\<close>: \<^verbatim>\<open>BigNumber.toNumber()\<close> on a value that does not fit a JavaScript
    number exactly;
  \<^item> \<open>TypeError\<close>: a method call on \<^verbatim>\<open>undefined\<close>;
  \<^item> \<open>Thrown\<close>: a \<^verbatim>\<open>throw\<close> of a string (line 98).
\<close>

datatype error = QueryFailed string | Overflow | TypeError | Thrown string

text \<open>The position of a log entry on the chain, as ethers reports it on every event.\<close>

record log_entry =
  blockNumber :: int
  transactionIndex :: int
  logIndex :: int

text \<open>
  The object literal pushed at lines 146-154, 170-178 and 187-195. The source's field
  names \<^verbatim>\<open>from\<close>, \<^verbatim>\<open>to\<close> and \<^verbatim>\<open>id\<close> carry a suffix here.
\<close>

record transfer = log_entry +
  from_addr :: string
  to_addr :: string
  id_str :: string
  amount :: int

text \<open>
  The three event shapes returned by \<^verbatim>\<open>queryFilter\<close>, with the decoded parameters the
  script reads under \<^verbatim>\<open>event.args\<close>: \<open>t_\<close> for \<^verbatim>\<open>Transfer\<close> (\<^verbatim>\<open>args.from\<close>,
  \<^verbatim>\<open>args.to\<close>, \<^verbatim>\<open>args.tokenId\<close>), \<open>ts_\<close> for \<^verbatim>\<open>TransferSingle\<close> (\<^verbatim>\<open>args._from\<close>,
  \<^verbatim>\<open>args._to\<close>, \<^verbatim>\<open>args._id\<close>, \<^verbatim>\<open>args._amount\<close>) and \<open>tb_\<close> for \<^verbatim>\<open>TransferBatch\<close>
  (\<^verbatim>\<open>args._from\<close>, \<^verbatim>\<open>args._to\<close>, \<^verbatim>\<open>args._ids\<close>, \<^verbatim>\<open>args._amounts\<close>). Token ids and
  amounts are ethers \<^verbatim>\<open>BigNumber\<close>s decoded from \<^verbatim>\<open>uint256\<close>, hence naturals.

  Line 186 reads \<^verbatim>\<open>event._ids\<close>, a property of the event object itself and not of
  \<^verbatim>\<open>event.args\<close>. \<open>ev_ids\<close> is that property: \<open>None\<close> when it is \<^verbatim>\<open>undefined\<close>, which
  is the case for every event ethers builds (an ethers event carries the log fields,
  \<^verbatim>\<open>event\<close>, \<^verbatim>\<open>eventSignature\<close>, \<^verbatim>\<open>args\<close> and a few methods, and no decoded parameter
  at the top level).
\<close>

record transfer_event = log_entry +
  t_from :: string
  t_to :: string
  t_tokenId :: nat

record single_event = log_entry +
  ts_from :: string
  ts_to :: string
  ts_id :: nat
  ts_amount :: nat

record batch_event = log_entry +
  tb_from :: string
  tb_to :: string
  tb_ids :: "nat list"
  tb_amounts :: "nat list"
  ev_ids :: "nat list option"

text \<open>
  The contract handle, reduced to what the script calls on it:
  \<^verbatim>\<open>queryFilter(filter, fromBlock, toBlock)\<close> for each of the three filters. A rejected
  promise is \<open>Inl\<close>.
\<close>

record event_source =
  queryTransfer :: "int \<Rightarrow> int \<Rightarrow> error + transfer_event list"
  queryTransferSingle :: "int \<Rightarrow> int \<Rightarrow> error + single_event list"
  queryTransferBatch :: "int \<Rightarrow> int \<Rightarrow> error + batch_event list"

type_synonym chunk = "int \<times> int"

text \<open>
  \<^verbatim>\<open>ownerRecords\<close>: an object of objects of numbers, keyed by owner address and then by
  token id. Addresses are \<^verbatim>\<open>0x\<close>-prefixed hexadecimal strings and ids are decimal
  strings, so no key meets a property inherited from \<^verbatim>\<open>Object.prototype\<close>, and
  \<^verbatim>\<open>hasOwnProperty\<close> is membership in the domain. A balance is a JavaScript number, an
  IEEE-754 double. Every amount is an integer and the result of adding or subtracting
  integer-valued doubles is integer-valued again, so a balance is given by its integer
  value.
\<close>

type_synonym ledger = "string \<rightharpoonup> (string \<rightharpoonup> int)"

section \<open>Normalisation: getEventsInRange (lines 131-204)\<close>

text \<open>\<^verbatim>\<open>BigNumber.toString()\<close>: the decimal numeral.\<close>

fun toString :: "nat \<Rightarrow> string" where
  "toString n =
     (if n < 10 then [char_of (48 + n)]
      else toString (n div 10) @ [char_of (48 + n mod 10)])"

declare toString.simps [simp del]

text \<open>
  \<^verbatim>\<open>BigNumber.toNumber()\<close>: the value as a JavaScript number; ethers throws an overflow
  fault when the value needs more than 53 bits.
\<close>

definition toNumber :: "nat \<Rightarrow> error + int" where
  "toNumber v = (if v < 2 ^ 53 then Inr (int v) else Inl Overflow)"

text \<open>
  A \<^verbatim>\<open>for\<close> loop whose body pushes records or throws: the records of every iteration in
  order, or the first exception.
\<close>

fun push_all :: "('a \<Rightarrow> error + transfer list) \<Rightarrow> 'a list \<Rightarrow> error + transfer list" where
  "push_all body [] = Inr []"
| "push_all body (x # xs) =
     (case body x of
        Inl e \<Rightarrow> Inl e
      | Inr rs \<Rightarrow> (case push_all body xs of Inl e \<Rightarrow> Inl e | Inr rs' \<Rightarrow> Inr (rs @ rs')))"

text \<open>Lines 146-154.\<close>

definition transfer_record :: "transfer_event \<Rightarrow> error + transfer list" where
  "transfer_record event =
     Inr [\<lparr>blockNumber = blockNumber event,
           transactionIndex = transactionIndex event,
           logIndex = logIndex event,
           from_addr = t_from event,
           to_addr = t_to event,
           id_str = toString (t_tokenId event),
           amount = 1\<rparr>]"

text \<open>Lines 170-178.\<close>

definition single_record :: "single_event \<Rightarrow> error + transfer list" where
  "single_record event =
     (case toNumber (ts_amount event) of
        Inl e \<Rightarrow> Inl e
      | Inr a \<Rightarrow>
          Inr [\<lparr>blockNumber = blockNumber event,
                transactionIndex = transactionIndex event,
                logIndex = logIndex event,
                from_addr = ts_from event,
                to_addr = ts_to event,
                id_str = toString (ts_id event),
                amount = a\<rparr>])"

text \<open>
  Lines 187-195, the body of the inner loop at index \<open>idx\<close>. Reading an array past its
  end gives \<^verbatim>\<open>undefined\<close>, on which \<^verbatim>\<open>toString()\<close> and \<^verbatim>\<open>toNumber()\<close> are type
  errors.
\<close>

definition batch_record :: "batch_event \<Rightarrow> nat \<Rightarrow> error + transfer list" where
  "batch_record event idx =
     (if idx < length (tb_ids event) then
        (if idx < length (tb_amounts event) then
           (case toNumber (tb_amounts event ! idx) of
              Inl e \<Rightarrow> Inl e
            | Inr a \<Rightarrow>
                Inr [\<lparr>blockNumber = blockNumber event,
                      transactionIndex = transactionIndex event,
                      logIndex = logIndex event,
                      from_addr = tb_from event,
                      to_addr = tb_to event,
                      id_str = toString (tb_ids event ! idx),
                      amount = a\<rparr>])
         else Inl TypeError)
      else Inl TypeError)"

text \<open>
  Lines 186-196: \<^verbatim>\<open>for (let idx in event._ids)\<close>. A \<^verbatim>\<open>for-in\<close> over \<^verbatim>\<open>undefined\<close>
  runs its body zero times and does not throw; over an array it visits the indices in
  ascending order.
\<close>

definition batch_records :: "batch_event \<Rightarrow> error + transfer list" where
  "batch_records event =
     (case ev_ids event of
        None \<Rightarrow> Inr []
      | Some own \<Rightarrow> push_all (batch_record event) [0..<length own])"

text \<open>
  \<^verbatim>\<open>getEventsInRange(tokenContract, fromBlock, toBlock)\<close>, with the global
  \<^verbatim>\<open>ERC_STANDARD\<close> as first argument. The logging to standard output is left out.
\<close>

definition getEventsInRange ::
  "int \<Rightarrow> event_source \<Rightarrow> int \<Rightarrow> int \<Rightarrow> error + transfer list" where
  "getEventsInRange ERC_STANDARD tokenContract fromBlock toBlock =
     (if ERC_STANDARD = 721 then
        (case queryTransfer tokenContract fromBlock toBlock of
           Inl e \<Rightarrow> Inl e
         | Inr events \<Rightarrow> push_all transfer_record events)
      else if ERC_STANDARD = 1155 then
        (case queryTransferSingle tokenContract fromBlock toBlock of
           Inl e \<Rightarrow> Inl e
         | Inr tsEvents \<Rightarrow>
             (case push_all single_record tsEvents of
                Inl e \<Rightarrow> Inl e
              | Inr singles \<Rightarrow>
                  (case queryTransferBatch tokenContract fromBlock toBlock of
                     Inl e \<Rightarrow> Inl e
                   | Inr tbEvents \<Rightarrow>
                       (case push_all batch_records tbEvents of
                          Inl e \<Rightarrow> Inl e
                        | Inr batches \<Rightarrow> Inr (singles @ batches)))))
      else Inr [])"

section \<open>Fetching: the loops of main (lines 49-76)\<close>

definition BLOCK_SIZE :: int where
  "BLOCK_SIZE = 250"

definition BATCH_NUMBER :: nat where
  "BATCH_NUMBER = 10"

text \<open>
  The \<^verbatim>\<open>for\<close> loop of lines 61-73, from \<open>batchIdx\<close> on. It returns the variables
  \<^verbatim>\<open>fromBlock\<close> and \<^verbatim>\<open>toBlock\<close> and the array \<^verbatim>\<open>promises\<close> as the loop leaves them.
  Each call \<^verbatim>\<open>getEventsInRange(tokenContract, fromBlock, toBlock)\<close> starts its query at
  once and returns a promise; \<open>promises\<close> records the chunk each promise is for, and the
  value the promise settles to is computed where the script awaits it.
\<close>

function batch_loop :: "int \<Rightarrow> nat \<Rightarrow> int \<Rightarrow> int \<Rightarrow> chunk list \<Rightarrow> int \<times> int \<times> chunk list" where
  "batch_loop BLOCK_TO batchIdx fromBlock toBlock promises =
     (if batchIdx \<le> BATCH_NUMBER then
        (let promises' = promises @ [(fromBlock, toBlock)];
             fromBlock' = toBlock + 1;
             toBlock' = min BLOCK_TO (toBlock + BLOCK_SIZE)
         in if BLOCK_TO = toBlock' then (fromBlock', toBlock', promises')
            else batch_loop BLOCK_TO (batchIdx + 1) fromBlock' toBlock' promises')
      else (fromBlock, toBlock, promises))"
  by pat_completeness auto
termination
  by (relation "measure (\<lambda>(BLOCK_TO, batchIdx, fromBlock, toBlock, promises). BATCH_NUMBER + 1 - batchIdx)") auto

declare batch_loop.simps [simp del]

text \<open>
  \<^verbatim>\<open>Promise.all\<close>: the results in the order of the promises, or a rejection when one of
  them rejects. Which rejection wins when several promises reject depends on timing; the
  model reports the first in dispatch order.
\<close>

fun promise_all :: "(error + 'a) list \<Rightarrow> error + 'a list" where
  "promise_all [] = Inr []"
| "promise_all (p # ps) =
     (case p of
        Inl e \<Rightarrow> Inl e
      | Inr v \<Rightarrow> (case promise_all ps of Inl e \<Rightarrow> Inl e | Inr vs \<Rightarrow> Inr (v # vs)))"

lemma batch_loop_advances:
  "batch_loop BLOCK_TO batchIdx fromBlock toBlock promises = (fromBlock', toBlock', promises')
   \<Longrightarrow> toBlock < BLOCK_TO
   \<Longrightarrow> toBlock' \<le> BLOCK_TO \<and> toBlock \<le> toBlock' \<and> (batchIdx \<le> BATCH_NUMBER \<longrightarrow> toBlock < toBlock')"
proof (induction BLOCK_TO batchIdx fromBlock toBlock promises rule: batch_loop.induct)
  case (1 BLOCK_TO batchIdx fromBlock toBlock promises)
  show ?case
  proof (cases "batchIdx \<le> BATCH_NUMBER")
    case False
    with "1.prems" show ?thesis by (simp add: batch_loop.simps)
  next
    case True
    let ?t = "min BLOCK_TO (toBlock + BLOCK_SIZE)"
    let ?ps = "promises @ [(fromBlock, toBlock)]"
    have step: "toBlock < ?t" "?t \<le> BLOCK_TO"
      using "1.prems"(2) by (simp_all add: BLOCK_SIZE_def)
    have unfold: "batch_loop BLOCK_TO batchIdx fromBlock toBlock promises =
                    (if BLOCK_TO = ?t then (toBlock + 1, ?t, ?ps)
                     else batch_loop BLOCK_TO (batchIdx + 1) (toBlock + 1) ?t ?ps)"
      using True by (subst batch_loop.simps) (simp only: Let_def if_True)
    show ?thesis
    proof (cases "BLOCK_TO = ?t")
      case eq: True
      have "batch_loop BLOCK_TO batchIdx fromBlock toBlock promises = (toBlock + 1, ?t, ?ps)"
        by (rule trans [OF unfold if_P [OF eq]])
      with "1.prems"(1) have "toBlock' = ?t" by simp
      with step show ?thesis by simp
    next
      case neq: False
      then have lt: "?t < BLOCK_TO" using step(2) by simp
      have "batch_loop BLOCK_TO batchIdx fromBlock toBlock promises =
              batch_loop BLOCK_TO (batchIdx + 1) (toBlock + 1) ?t ?ps"
        by (rule trans [OF unfold if_not_P [OF neq]])
      with "1.prems"(1)
      have eq: "batch_loop BLOCK_TO (batchIdx + 1) (toBlock + 1) ?t ?ps = (fromBlock', toBlock', promises')"
        by simp
      from "1.IH" [OF True refl refl refl neq eq lt]
      have a: "toBlock' \<le> BLOCK_TO" and b: "?t \<le> toBlock'" by blast+
      from step(1) b have "toBlock < toBlock'" by (rule less_le_trans)
      with a show ?thesis by simp
    qed
  qed
qed

text \<open>
  The \<^verbatim>\<open>while\<close> loop of lines 56-76. Its result is the list of groups dispatched, one
  inner list for each \<^verbatim>\<open>Promise.all\<close>, and either the records collected or the
  exception that left the loop. A group whose \<^verbatim>\<open>Promise.all\<close> rejects has been
  dispatched in full before the \<^verbatim>\<open>await\<close>.
\<close>

function fetch_loop ::
  "int \<Rightarrow> event_source \<Rightarrow> int \<Rightarrow> int \<Rightarrow> int \<Rightarrow> transfer list
     \<Rightarrow> chunk list list \<times> (error + transfer list)" where
  "fetch_loop ERC_STANDARD tokenContract BLOCK_TO fromBlock toBlock transferRecords =
     (if toBlock < BLOCK_TO then
        (case batch_loop BLOCK_TO 0 fromBlock toBlock [] of
           (fromBlock', toBlock', promises) \<Rightarrow>
             (case promise_all
                     (map (\<lambda>(f, t). getEventsInRange ERC_STANDARD tokenContract f t) promises) of
                Inl e \<Rightarrow> ([promises], Inl e)
              | Inr results \<Rightarrow>
                  (case fetch_loop ERC_STANDARD tokenContract BLOCK_TO fromBlock' toBlock'
                          (transferRecords @ concat results) of
                     (groups, r) \<Rightarrow> (promises # groups, r))))
      else ([], Inr transferRecords))"
  by pat_completeness auto
termination
proof (relation "measure (\<lambda>(ERC_STANDARD, tokenContract, BLOCK_TO, fromBlock, toBlock, transferRecords).
                            nat (BLOCK_TO - toBlock))", goal_cases)
  case 1
  show ?case by simp
next
  case (2 ERC_STANDARD tokenContract BLOCK_TO fromBlock toBlock transferRecords x1 x2 x1a x2a x2b)
  then have "batch_loop BLOCK_TO 0 fromBlock toBlock [] = (x1, x1a, x2a)"
    by simp
  from batch_loop_advances [OF this \<open>toBlock < BLOCK_TO\<close>] show ?case
    by simp
qed

declare fetch_loop.simps [simp del]

section \<open>Ordering: the sort of lines 79-99\<close>

text \<open>The comparator passed to \<^verbatim>\<open>sort\<close>: \<open>-1\<close>, \<open>1\<close>, or the \<^verbatim>\<open>throw\<close> of line 98.\<close>

definition compare_transfers :: "transfer \<Rightarrow> transfer \<Rightarrow> error + int" where
  "compare_transfers a b =
     (if blockNumber a < blockNumber b then Inr (- 1)
      else if blockNumber a > blockNumber b then Inr 1
      else if transactionIndex a < transactionIndex b then Inr (- 1)
      else if transactionIndex a > transactionIndex b then Inr 1
      else if logIndex a < logIndex b then Inr (- 1)
      else if logIndex a > logIndex b then Inr 1
      else Inl (Thrown ''This should never, ever happen''))"

text \<open>
  \<^verbatim>\<open>Array.prototype.sort(comparator)\<close>. ECMAScript requires the sort to be stable and
  to pass on an exception of the comparator; which pairs are compared is left to the
  engine. The model is a stable insertion sort: an element goes before the first element
  of the sorted rest that it does not follow. An array of fewer than two elements is
  returned without any comparison.
\<close>

fun insert_by :: "('a \<Rightarrow> 'a \<Rightarrow> error + int) \<Rightarrow> 'a \<Rightarrow> 'a list \<Rightarrow> error + 'a list" where
  "insert_by cmp x [] = Inr [x]"
| "insert_by cmp x (y # ys) =
     (case cmp x y of
        Inl e \<Rightarrow> Inl e
      | Inr c \<Rightarrow>
          (if c \<le> 0 then Inr (x # y # ys)
           else (case insert_by cmp x ys of Inl e \<Rightarrow> Inl e | Inr zs \<Rightarrow> Inr (y # zs))))"

fun sort_by :: "('a \<Rightarrow> 'a \<Rightarrow> error + int) \<Rightarrow> 'a list \<Rightarrow> error + 'a list" where
  "sort_by cmp [] = Inr []"
| "sort_by cmp (x # xs) =
     (case sort_by cmp xs of Inl e \<Rightarrow> Inl e | Inr ys \<Rightarrow> insert_by cmp x ys)"

text \<open>The ordering key the comparator reads.\<close>

definition key :: "transfer \<Rightarrow> int \<times> int \<times> int" where
  "key r = (blockNumber r, transactionIndex r, logIndex r)"

section \<open>Replay: the loop of lines 102-124\<close>

text \<open>
  The arithmetic of lines 112 and 122. \<^verbatim>\<open>-=\<close> and \<^verbatim>\<open>+=\<close> on doubles give the exact
  difference or sum rounded to the nearest double, a tie going to the even significand.
  \<open>bits n\<close> is the number of binary digits of \<open>n\<close>; a double has a significand of 53
  bits, so an integer of at most 53 bits is kept, and a longer one is rounded to a
  multiple of \<open>2 ^ (bits n - 53)\<close>. Results of magnitude \<open>2 ^ 1024\<close> and more, where a
  double becomes \<^verbatim>\<open>Infinity\<close>, are rounded like the others: they take more than
  \<open>2 ^ 970\<close> records to reach, and no statement below is about values of that size.
  An amount is a double to begin with: 1, or a value below \<open>2 ^ 53\<close> that
  \<^verbatim>\<open>toNumber()\<close> has let through.
\<close>

function bits :: "int \<Rightarrow> nat" where
  "bits n = (if n \<le> 0 then 0 else Suc (bits (n div 2)))"
  by pat_completeness auto
termination
  by (relation "measure nat") auto

declare bits.simps [simp del]

definition round_double :: "int \<Rightarrow> int" where
  "round_double x =
     (if bits \<bar>x\<bar> \<le> 53 then x
      else
        (let s = bits \<bar>x\<bar> - 53;
             q = \<bar>x\<bar> div 2 ^ s;
             r = \<bar>x\<bar> mod 2 ^ s;
             half = 2 ^ (s - 1);
             q' = (if half < r \<or> (r = half \<and> odd q) then q + 1 else q)
         in sgn x * (q' * 2 ^ s)))"

text \<open>
  Lines 105-113: the owner's object is created when missing, then the entry for the id
  is set to \<^verbatim>\<open>-transfer.amount\<close> when missing and decreased by \<^verbatim>\<open>-=\<close> otherwise.
\<close>

definition debit :: "ledger \<Rightarrow> transfer \<Rightarrow> ledger" where
  "debit ownerRecords transfer =
     (let holdings = (case ownerRecords (from_addr transfer) of
                        None \<Rightarrow> Map.empty
                      | Some h \<Rightarrow> h)
      in ownerRecords(from_addr transfer \<mapsto>
           holdings(id_str transfer \<mapsto>
             (case holdings (id_str transfer) of
                None \<Rightarrow> - amount transfer
              | Some v \<Rightarrow> round_double (v - amount transfer)))))"

text \<open>
  Lines 115-123: the same for the receiver, with \<^verbatim>\<open>transfer.amount\<close> stored when the
  entry is missing and added by \<^verbatim>\<open>+=\<close> otherwise.
\<close>

definition credit :: "ledger \<Rightarrow> transfer \<Rightarrow> ledger" where
  "credit ownerRecords transfer =
     (let holdings = (case ownerRecords (to_addr transfer) of
                        None \<Rightarrow> Map.empty
                      | Some h \<Rightarrow> h)
      in ownerRecords(to_addr transfer \<mapsto>
           holdings(id_str transfer \<mapsto>
             (case holdings (id_str transfer) of
                None \<Rightarrow> amount transfer
              | Some v \<Rightarrow> round_double (v + amount transfer)))))"

text \<open>The \<^verbatim>\<open>for-of\<close> loop over \<^verbatim>\<open>transferRecords\<close>, from a given ledger.\<close>

fun replay_from :: "ledger \<Rightarrow> transfer list \<Rightarrow> ledger" where
  "replay_from ownerRecords [] = ownerRecords"
| "replay_from ownerRecords (transfer # rest) =
     replay_from (credit (debit ownerRecords transfer) transfer) rest"

text \<open>Line 102 and the loop: the replay starts from the empty object.\<close>

definition replay :: "transfer list \<Rightarrow> ledger" where
  "replay transferRecords = replay_from Map.empty transferRecords"

text \<open>
  Reading a ledger: \<^verbatim>\<open>ownerRecords[owner][i]\<close> when both properties exist, the balance
  with a missing entry counted as zero, and the sum of the balances for one id over all
  owners the ledger holds.
\<close>

definition entry :: "ledger \<Rightarrow> string \<Rightarrow> string \<Rightarrow> int option" where
  "entry ownerRecords owner i =
     (case ownerRecords owner of None \<Rightarrow> None | Some h \<Rightarrow> h i)"

definition balance :: "ledger \<Rightarrow> string \<Rightarrow> string \<Rightarrow> int" where
  "balance ownerRecords owner i =
     (case entry ownerRecords owner i of None \<Rightarrow> 0 | Some v \<Rightarrow> v)"


section \<open>The whole script\<close>

text \<open>
  The four constants of lines 11-14. \<open>arg_contract\<close> is \<^verbatim>\<open>argv.contract\<close>, \<open>None\<close> when
  the option is absent (\<^verbatim>\<open>undefined\<close>). The other three are results of \<^verbatim>\<open>parseInt\<close>,
  with \<open>None\<close> for \<^verbatim>\<open>NaN\<close>. Strings are taken to be ASCII, where the \<^verbatim>\<open>length\<close> of
  JavaScript is the number of characters.
\<close>

record arguments =
  arg_contract :: "string option"
  arg_erc :: "int option"
  arg_from :: "int option"
  arg_to :: "int option"

text \<open>
  What a run leaves behind: the lines sent to \<^verbatim>\<open>console.error\<close>, the exit status of
  the process, the groups of chunks queried, and the file written by line 127 (contract
  address and \<^verbatim>\<open>BLOCK_TO\<close>, which make the file name, and the ledger serialised into
  it), if any. Standard output is not recorded.
\<close>

datatype diagnostic = Message string | Uncaught error

record outcome =
  console_error :: "diagnostic list"
  exit_status :: int
  queried :: "chunk list list"
  written :: "(string \<times> int option \<times> ledger) option"

text \<open>
  \<^verbatim>\<open>process.exit()\<close> without an argument ends the process with
  \<^verbatim>\<open>process.exitCode\<close>, which the script never sets: Node's default, the success
  status 0.
\<close>

definition exit_default :: int where
  "exit_default = 0"

text \<open>
  Lines 49-99 of \<^verbatim>\<open>main\<close>: the fetch loop and the sort. When \<^verbatim>\<open>BLOCK_FROM\<close> or
  \<^verbatim>\<open>BLOCK_TO\<close> is \<^verbatim>\<open>NaN\<close>, so is \<^verbatim>\<open>toBlock\<close>, the test \<^verbatim>\<open>toBlock < BLOCK_TO\<close> is
  false and the loop is not entered. The result is the groups queried and the ordered
  records, or the exception that ended the stage.
\<close>

definition sequenced ::
  "int \<Rightarrow> int option \<Rightarrow> int option \<Rightarrow> event_source \<Rightarrow> chunk list list \<times> (error + transfer list)" where
  "sequenced ERC_STANDARD BLOCK_FROM BLOCK_TO tokenContract =
     (case (case (BLOCK_FROM, BLOCK_TO) of
              (Some block_from, Some block_to) \<Rightarrow>
                fetch_loop ERC_STANDARD tokenContract block_to
                  block_from (min block_to (block_from + BLOCK_SIZE)) []
            | _ \<Rightarrow> ([], Inr [])) of
        (groups, Inl e) \<Rightarrow> (groups, Inl e)
      | (groups, Inr transferRecords) \<Rightarrow> (groups, sort_by compare_transfers transferRecords))"

text \<open>
  \<^verbatim>\<open>main()\<close> with its \<^verbatim>\<open>then\<close> and \<^verbatim>\<open>catch\<close> handlers (lines 42-129 and 206-211):
  an exception anywhere in \<^verbatim>\<open>main\<close> rejects its promise, and the handler prints it and
  exits with status 1; otherwise the ledger is replayed and written, and the exit status
  is 0. The write of the file is taken to succeed.
\<close>

definition main :: "string \<Rightarrow> int \<Rightarrow> int option \<Rightarrow> int option \<Rightarrow> event_source \<Rightarrow> outcome" where
  "main TOKEN_CONTRACT_ADDRESS ERC_STANDARD BLOCK_FROM BLOCK_TO tokenContract =
     (case sequenced ERC_STANDARD BLOCK_FROM BLOCK_TO tokenContract of
        (groups, Inl e) \<Rightarrow>
          \<lparr>console_error = [Uncaught e], exit_status = 1, queried = groups, written = None\<rparr>
      | (groups, Inr transferRecords) \<Rightarrow>
          \<lparr>console_error = [], exit_status = 0, queried = groups,
           written = Some (TOKEN_CONTRACT_ADDRESS, BLOCK_TO, replay transferRecords)\<rparr>)"


text \<open>
  The script from its first line: the validation of lines 20-38, then \<^verbatim>\<open>main\<close>.
  \<^verbatim>\<open>!TOKEN_CONTRACT_ADDRESS\<close> holds for \<^verbatim>\<open>undefined\<close> and for the empty string,
  \<^verbatim>\<open>!ERC_STANDARD\<close> for \<^verbatim>\<open>NaN\<close> and for 0. The ABI files are taken to be in place.
\<close>

definition script :: "arguments \<Rightarrow> event_source \<Rightarrow> outcome" where
  "script argv tokenContract =
     (case arg_contract argv of
        None \<Rightarrow>
          \<lparr>console_error = [Message ''Invalid Token Contract Address''],
           exit_status = exit_default, queried = [], written = None\<rparr>
      | Some TOKEN_CONTRACT_ADDRESS \<Rightarrow>
          (if TOKEN_CONTRACT_ADDRESS = [] \<or> length TOKEN_CONTRACT_ADDRESS \<noteq> 42 then
             \<lparr>console_error = [Message ''Invalid Token Contract Address''],
              exit_status = exit_default, queried = [], written = None\<rparr>
           else
             (case arg_erc argv of
                None \<Rightarrow>
                  \<lparr>console_error = [Message ''Invalid Token ERC Standard''],
                   exit_status = exit_default, queried = [], written = None\<rparr>
              | Some ERC_STANDARD \<Rightarrow>
                  (if ERC_STANDARD = 0 \<or> ERC_STANDARD \<notin> set [20, 721, 1155] then
                     \<lparr>console_error = [Message ''Invalid Token ERC Standard''],
                      exit_status = exit_default, queried = [], written = None\<rparr>
                   else if ERC_STANDARD = 20 then
                     \<lparr>console_error = [Message ''Not currently supported''],
                      exit_status = exit_default, queried = [], written = None\<rparr>
                   else
                     main TOKEN_CONTRACT_ADDRESS ERC_STANDARD (arg_from argv) (arg_to argv)
                       tokenContract))))"

section \<open>Properties of the normalisation\<close>

lemma toString_digits:
  "toString (Suc 0) = ''1''" "toString 2 = ''2''" "toString 7 = ''7''"
  by code_simp+

text \<open>
  An event whose own \<^verbatim>\<open>_ids\<close> property is undefined yields no record, whatever
  \<^verbatim>\<open>args._ids\<close> and \<^verbatim>\<open>args._amounts\<close> hold.
\<close>

lemma batch_records_without_own_ids:
  "ev_ids event = None \<Longrightarrow> batch_records event = Inr []"
  by (simp add: batch_records_def)

text \<open>
  C3 claims one record for each index of a batch event's ids, so two records for
  \<^verbatim>\<open>ids = [1, 2]\<close>, \<^verbatim>\<open>amounts = [3, 5]\<close>. On such an event, as ethers delivers it,
  \<^verbatim>\<open>getEventsInRange\<close> returns no record at all: the loop of line 186 runs over
  \<^verbatim>\<open>event._ids\<close>, which is undefined, while its body reads \<^verbatim>\<open>event.args._ids\<close>.
\<close>

theorem batch_event_emits_nothing:
  "getEventsInRange 1155
     \<lparr>queryTransfer = (\<lambda>f t. Inr []),
      queryTransferSingle = (\<lambda>f t. Inr []),
      queryTransferBatch = (\<lambda>f t. Inr
        [\<lparr>blockNumber = 100, transactionIndex = 0, logIndex = 0,
          tb_from = ''X'', tb_to = ''Y'', tb_ids = [1, 2], tb_amounts = [3, 5],
          ev_ids = None\<rparr>])\<rparr> 0 250 = Inr []"
  by (simp add: getEventsInRange_def batch_records_def)

text \<open>
  Were the parameters also properties of the event itself, the same loop would emit the
  two records C3 describes.
\<close>

lemma batch_records_with_own_ids:
  "batch_records
     \<lparr>blockNumber = 100, transactionIndex = 0, logIndex = 0,
      tb_from = ''X'', tb_to = ''Y'', tb_ids = [1, 2], tb_amounts = [3, 5],
      ev_ids = Some [1, 2]\<rparr> =
   Inr [\<lparr>blockNumber = 100, transactionIndex = 0, logIndex = 0,
         from_addr = ''X'', to_addr = ''Y'', id_str = ''1'', amount = 3\<rparr>,
        \<lparr>blockNumber = 100, transactionIndex = 0, logIndex = 0,
         from_addr = ''X'', to_addr = ''Y'', id_str = ''2'', amount = 5\<rparr>]"
  by (simp add: batch_records_def batch_record_def toNumber_def toString_digits upt_rec)

text \<open>A failure of the event source rejects the promise of the chunk.\<close>

lemma query_failure_rejects:
  "queryTransfer src f t = Inl e \<Longrightarrow> getEventsInRange 721 src f t = Inl e"
  "queryTransferSingle src f t = Inl e \<Longrightarrow> getEventsInRange 1155 src f t = Inl e"
  "queryTransferSingle src f t = Inr tsEvents \<Longrightarrow> push_all single_record tsEvents = Inr rs \<Longrightarrow>
   queryTransferBatch src f t = Inl e \<Longrightarrow> getEventsInRange 1155 src f t = Inl e"
  by (simp_all add: getEventsInRange_def)

section \<open>Properties of the fetch stage\<close>

text \<open>The three ways an iteration of the \<^verbatim>\<open>while\<close> loop can go.\<close>

lemma fetch_loop_stop:
  "\<not> toBlock < BLOCK_TO \<Longrightarrow>
   fetch_loop std src BLOCK_TO fromBlock toBlock acc = ([], Inr acc)"
  by (simp add: fetch_loop.simps)

lemma fetch_loop_reject:
  "toBlock < BLOCK_TO \<Longrightarrow>
   batch_loop BLOCK_TO 0 fromBlock toBlock [] = (fromBlock', toBlock', promises) \<Longrightarrow>
   promise_all (map (\<lambda>(f, t). getEventsInRange std src f t) promises) = Inl e \<Longrightarrow>
   fetch_loop std src BLOCK_TO fromBlock toBlock acc = ([promises], Inl e)"
  by (subst fetch_loop.simps) simp

lemma fetch_loop_continue:
  "toBlock < BLOCK_TO \<Longrightarrow>
   batch_loop BLOCK_TO 0 fromBlock toBlock [] = (fromBlock', toBlock', promises) \<Longrightarrow>
   promise_all (map (\<lambda>(f, t). getEventsInRange std src f t) promises) = Inr results \<Longrightarrow>
   fetch_loop std src BLOCK_TO fromBlock toBlock acc =
     (promises # fst (fetch_loop std src BLOCK_TO fromBlock' toBlock' (acc @ concat results)),
      snd (fetch_loop std src BLOCK_TO fromBlock' toBlock' (acc @ concat results)))"
  by (subst fetch_loop.simps) (simp add: case_prod_beta)

text \<open>What one run of the inner loop adds to \<open>promises\<close>.\<close>

lemma batch_loop_group:
  "batch_loop BLOCK_TO batchIdx fromBlock toBlock promises = (fromBlock', toBlock', promises')
   \<Longrightarrow> toBlock < BLOCK_TO
   \<Longrightarrow> \<exists>new. promises' = promises @ new \<and>
             length new \<le> BATCH_NUMBER + 1 - batchIdx \<and>
             (\<forall>c \<in> set new. snd c < BLOCK_TO) \<and>
             (batchIdx \<le> BATCH_NUMBER \<longrightarrow> new \<noteq> []) \<and>
             (toBlock' < BLOCK_TO \<longrightarrow> length new = BATCH_NUMBER + 1 - batchIdx)"
proof (induction BLOCK_TO batchIdx fromBlock toBlock promises rule: batch_loop.induct)
  case (1 BLOCK_TO batchIdx fromBlock toBlock promises)
  show ?case
  proof (cases "batchIdx \<le> BATCH_NUMBER")
    case False
    with "1.prems" have "promises' = promises" by (simp add: batch_loop.simps)
    with False show ?thesis by simp
  next
    case True
    let ?t = "min BLOCK_TO (toBlock + BLOCK_SIZE)"
    let ?ps = "promises @ [(fromBlock, toBlock)]"
    have unfold: "batch_loop BLOCK_TO batchIdx fromBlock toBlock promises =
                    (if BLOCK_TO = ?t then (toBlock + 1, ?t, ?ps)
                     else batch_loop BLOCK_TO (batchIdx + 1) (toBlock + 1) ?t ?ps)"
      using True by (subst batch_loop.simps) (simp only: Let_def if_True)
    show ?thesis
    proof (cases "BLOCK_TO = ?t")
      case eq: True
      have "batch_loop BLOCK_TO batchIdx fromBlock toBlock promises = (toBlock + 1, ?t, ?ps)"
        by (rule trans [OF unfold if_P [OF eq]])
      with "1.prems"(1) have r: "promises' = ?ps" "toBlock' = ?t" by simp_all
      from eq r(2) have "\<not> toBlock' < BLOCK_TO" by simp
      with r(1) True "1.prems"(2) show ?thesis
        by (intro exI [of _ "[(fromBlock, toBlock)]"]) simp
    next
      case neq: False
      then have lt: "?t < BLOCK_TO" by simp
      have "batch_loop BLOCK_TO batchIdx fromBlock toBlock promises =
              batch_loop BLOCK_TO (batchIdx + 1) (toBlock + 1) ?t ?ps"
        by (rule trans [OF unfold if_not_P [OF neq]])
      with "1.prems"(1)
      have eq: "batch_loop BLOCK_TO (batchIdx + 1) (toBlock + 1) ?t ?ps = (fromBlock', toBlock', promises')"
        by simp
      from "1.IH" [OF True refl refl refl neq eq lt]
      obtain new where new: "promises' = ?ps @ new"
        "length new \<le> BATCH_NUMBER + 1 - (batchIdx + 1)"
        "\<forall>c \<in> set new. snd c < BLOCK_TO"
        "toBlock' < BLOCK_TO \<longrightarrow> length new = BATCH_NUMBER + 1 - (batchIdx + 1)"
        by blast
      show ?thesis
        using new True "1.prems"(2)
        by (intro exI [of _ "(fromBlock, toBlock) # new"]) auto
    qed
  qed
qed

lemma promise_all_fulfilled:
  "promise_all ps = Inr vs \<Longrightarrow> p \<in> set ps \<Longrightarrow> \<exists>v. p = Inr v"
  by (induction ps arbitrary: vs) (auto split: sum.splits)



text \<open>Induction over the iterations of the \<^verbatim>\<open>while\<close> loop, by the way each one ends.\<close>

lemma fetch_loop_iterations [case_names stop reject continue]:
  assumes stop: "\<And>std src BLOCK_TO fromBlock toBlock acc.
      \<not> toBlock < BLOCK_TO \<Longrightarrow> P std src BLOCK_TO fromBlock toBlock acc"
    and reject: "\<And>std src BLOCK_TO fromBlock toBlock acc fromBlock' toBlock' promises e.
      toBlock < BLOCK_TO \<Longrightarrow>
      batch_loop BLOCK_TO 0 fromBlock toBlock [] = (fromBlock', toBlock', promises) \<Longrightarrow>
      promise_all (map (\<lambda>(f, t). getEventsInRange std src f t) promises) = Inl e \<Longrightarrow>
      P std src BLOCK_TO fromBlock toBlock acc"
    and continue: "\<And>std src BLOCK_TO fromBlock toBlock acc fromBlock' toBlock' promises results.
      toBlock < BLOCK_TO \<Longrightarrow>
      batch_loop BLOCK_TO 0 fromBlock toBlock [] = (fromBlock', toBlock', promises) \<Longrightarrow>
      promise_all (map (\<lambda>(f, t). getEventsInRange std src f t) promises) = Inr results \<Longrightarrow>
      P std src BLOCK_TO fromBlock' toBlock' (acc @ concat results) \<Longrightarrow>
      P std src BLOCK_TO fromBlock toBlock acc"
  shows "P std src BLOCK_TO fromBlock toBlock acc"
proof (induction std src BLOCK_TO fromBlock toBlock acc rule: fetch_loop.induct)
  case (1 std src BLOCK_TO fromBlock toBlock acc)
  show ?case
  proof (cases "toBlock < BLOCK_TO")
    case False
    then show ?thesis by (rule stop)
  next
    case True
    obtain fromBlock' toBlock' promises
      where b: "batch_loop BLOCK_TO 0 fromBlock toBlock [] = (fromBlock', toBlock', promises)"
      by (cases "batch_loop BLOCK_TO 0 fromBlock toBlock []") auto
    show ?thesis
    proof (cases "promise_all (map (\<lambda>(f, t). getEventsInRange std src f t) promises)")
      case (Inl e)
      from True b Inl show ?thesis by (rule reject)
    next
      case (Inr results)
      from True b Inr "1.IH" [OF True b [symmetric] refl Inr] show ?thesis by (rule continue)
    qed
  qed
qed

lemma fetch_loop_groups:
  "g \<in> set (fst (fetch_loop std src BLOCK_TO fromBlock toBlock acc)) \<Longrightarrow>
   g \<noteq> [] \<and> length g \<le> BATCH_NUMBER + 1 \<and> (\<forall>c \<in> set g. snd c < BLOCK_TO)"
proof (induction std src BLOCK_TO fromBlock toBlock acc rule: fetch_loop_iterations)
  case (stop std src BLOCK_TO fromBlock toBlock acc)
  then show ?case by (simp add: fetch_loop_stop)
next
  case (reject std src BLOCK_TO fromBlock toBlock acc fromBlock' toBlock' promises e)
  from batch_loop_group [OF reject(2) reject(1)] reject(4) show ?case
    by (auto simp: fetch_loop_reject [OF reject(1-3)])
next
  case (continue std src BLOCK_TO fromBlock toBlock acc fromBlock' toBlock' promises results)
  from continue(5) consider "g = promises"
    | "g \<in> set (fst (fetch_loop std src BLOCK_TO fromBlock' toBlock' (acc @ concat results)))"
    by (auto simp: fetch_loop_continue [OF continue(1-3)])
  then show ?case
  proof cases
    case 1
    with batch_loop_group [OF continue(2) continue(1)] show ?thesis by auto
  next
    case 2
    then show ?thesis by (rule continue(4))
  qed
qed

lemma fetch_loop_full_groups:
  "Suc k < length (fst (fetch_loop std src BLOCK_TO fromBlock toBlock acc)) \<Longrightarrow>
   length (fst (fetch_loop std src BLOCK_TO fromBlock toBlock acc) ! k) = BATCH_NUMBER + 1"
proof (induction std src BLOCK_TO fromBlock toBlock acc arbitrary: k rule: fetch_loop_iterations)
  case (stop std src BLOCK_TO fromBlock toBlock acc)
  then show ?case by (simp add: fetch_loop_stop)
next
  case (reject std src BLOCK_TO fromBlock toBlock acc fromBlock' toBlock' promises e)
  from reject(4) show ?case by (simp add: fetch_loop_reject [OF reject(1-3)])
next
  case (continue std src BLOCK_TO fromBlock toBlock acc fromBlock' toBlock' promises results)
  let ?rest = "fst (fetch_loop std src BLOCK_TO fromBlock' toBlock' (acc @ concat results))"
  have groups: "fst (fetch_loop std src BLOCK_TO fromBlock toBlock acc) = promises # ?rest"
    by (simp add: fetch_loop_continue [OF continue(1-3)])
  show ?case
  proof (cases k)
    case 0
    with continue(5) groups have "?rest \<noteq> []" by auto
    then have "toBlock' < BLOCK_TO" by (rule contrapos_np) (simp add: fetch_loop_stop)
    with batch_loop_group [OF continue(2) continue(1)] 0 groups show ?thesis by auto
  next
    case (Suc j)
    with continue(5) groups have "Suc j < length ?rest" by simp
    from continue(4) [OF this] Suc groups show ?thesis by simp
  qed
qed

lemma fetch_loop_all_fulfilled:
  "snd (fetch_loop std src BLOCK_TO fromBlock toBlock acc) = Inr rs \<Longrightarrow>
   (f, t) \<in> set (concat (fst (fetch_loop std src BLOCK_TO fromBlock toBlock acc))) \<Longrightarrow>
   \<exists>v. getEventsInRange std src f t = Inr v"
proof (induction std src BLOCK_TO fromBlock toBlock acc rule: fetch_loop_iterations)
  case (stop std src BLOCK_TO fromBlock toBlock acc)
  then show ?case by (simp add: fetch_loop_stop)
next
  case (reject std src BLOCK_TO fromBlock toBlock acc fromBlock' toBlock' promises e)
  from reject(4) show ?case by (simp add: fetch_loop_reject [OF reject(1-3)])
next
  case (continue std src BLOCK_TO fromBlock toBlock acc fromBlock' toBlock' promises results)
  let ?next = "fetch_loop std src BLOCK_TO fromBlock' toBlock' (acc @ concat results)"
  from continue(5) have r: "snd ?next = Inr rs"
    by (simp add: fetch_loop_continue [OF continue(1-3)])
  from continue(6) consider "(f, t) \<in> set promises" | "(f, t) \<in> set (concat (fst ?next))"
    by (auto simp: fetch_loop_continue [OF continue(1-3)])
  then show ?case
  proof cases
    case 1
    then have "getEventsInRange std src f t
                 \<in> set (map (\<lambda>(f, t). getEventsInRange std src f t) promises)"
      by force
    from promise_all_fulfilled [OF continue(3) this] show ?thesis .
  next
    case 2
    from continue(4) [OF r 2] show ?thesis .
  qed
qed

text \<open>A run either queries nothing or is \<^verbatim>\<open>main\<close> on a numeric block range.\<close>

lemma script_queried:
  assumes "queried (script argv src) \<noteq> []"
  obtains a std f t where
    "arg_erc argv = Some std" "arg_to argv = Some t"
    "script argv src = main a std (Some f) (Some t) src"
    "sequenced std (Some f) (Some t) src =
       (fst (fetch_loop std src t f (min t (f + BLOCK_SIZE)) []),
        case snd (fetch_loop std src t f (min t (f + BLOCK_SIZE)) []) of
          Inl e \<Rightarrow> Inl e | Inr rs \<Rightarrow> sort_by compare_transfers rs)"
    "queried (script argv src) = fst (fetch_loop std src t f (min t (f + BLOCK_SIZE)) [])"
proof -
  from assms obtain a where a: "arg_contract argv = Some a" "a \<noteq> []" "length a = 42"
    by (auto simp: script_def split: option.splits if_splits)
  from assms a obtain std where std: "arg_erc argv = Some std"
    "std \<noteq> 0" "std \<in> set [20, 721, 1155]" "std \<noteq> 20"
    by (auto simp: script_def split: option.splits if_splits)
  from a std have m: "script argv src = main a std (arg_from argv) (arg_to argv) src"
    by (simp add: script_def)
  have seq: "sequenced std (Some f) (Some t) src =
       (fst (fetch_loop std src t f (min t (f + BLOCK_SIZE)) []),
        case snd (fetch_loop std src t f (min t (f + BLOCK_SIZE)) []) of
          Inl e \<Rightarrow> Inl e | Inr rs \<Rightarrow> sort_by compare_transfers rs)" for f t
    by (simp add: sequenced_def split: prod.splits sum.splits)
  have q: "queried (main a std F T src) = fst (sequenced std F T src)" for F T
    by (simp add: main_def split: prod.splits sum.splits)
  from assms m q obtain f t where ft: "arg_from argv = Some f" "arg_to argv = Some t"
    by (cases "arg_from argv"; cases "arg_to argv") (auto simp: sequenced_def)
  show thesis
    using std(1) ft(2) m seq [of f t] q [of "Some f" "Some t"] ft
    by (intro that [of std t a f]) simp_all
qed

lemma queried_main: "queried (main a std F T src) = fst (sequenced std F T src)"
  by (cases "sequenced std F T src" rule: prod.exhaust [case_names Pair])
     (simp add: main_def split: sum.splits)

lemma fst_sequenced:
  "fst (sequenced std (Some f) (Some t) src) =
     fst (fetch_loop std src t f (min t (f + BLOCK_SIZE)) [])"
  by (cases "fetch_loop std src t f (min t (f + BLOCK_SIZE)) []")
     (simp add: sequenced_def split: sum.splits)

lemma main_rejected:
  "snd (sequenced std F T src) = Inl e \<Longrightarrow>
   exit_status (main a std F T src) = 1 \<and> written (main a std F T src) = None \<and>
   console_error (main a std F T src) = [Uncaught e]"
  by (cases "sequenced std F T src") (simp add: main_def)

lemma main_completed:
  "snd (sequenced std F T src) = Inr rs \<Longrightarrow>
   exit_status (main a std F T src) = 0 \<and>
   written (main a std F T src) = Some (a, T, replay rs) \<and>
   console_error (main a std F T src) = []"
  by (cases "sequenced std F T src") (simp add: main_def)

text \<open>
  C1 claims that the chunks queried cover \<open>[from, to]\<close>, the last one clipped to
  \<open>to\<close>; for \<open>from = 1000\<close>, \<open>to = 1500\<close> and chunk size 250 these would be
  \<open>[1000, 1249]\<close>, \<open>[1250, 1499]\<close>, \<open>[1500, 1500]\<close>. The script queries the single
  chunk \<open>[1000, 1250]\<close>, whatever the event source answers: line 70 leaves the inner
  loop as soon as \<^verbatim>\<open>toBlock\<close> has reached \<^verbatim>\<open>BLOCK_TO\<close>, before the chunk ending there
  is dispatched, and the test of line 56 then ends the outer loop. Blocks 1251 to 1500
  are never queried.
\<close>

theorem range_tail_not_queried:
  "queried (script
      \<lparr>arg_contract = Some ''0x06012c8cf97BEaD5deAe237070F9587f8E7A266d'',
       arg_erc = Some 721, arg_from = Some 1000, arg_to = Some 1500\<rparr>
      tokenContract) = [[(1000, 1250)]]"
proof -
  let ?fetch = "fetch_loop 721 tokenContract 1500 1000 1250 []"
  have b: "batch_loop 1500 0 1000 1250 [] = (1251, 1500, [(1000, 1250)])"
    by (simp add: batch_loop.simps BLOCK_SIZE_def BATCH_NUMBER_def)
  have "fst ?fetch = [[(1000, 1250)]]"
  proof (cases "promise_all (map (\<lambda>(f, t). getEventsInRange 721 tokenContract f t) [(1000, 1250)])")
    case (Inl e)
    have "?fetch = ([[(1000, 1250)]], Inl e)"
      by (rule fetch_loop_reject [OF _ b Inl]) simp
    then show ?thesis by simp
  next
    case (Inr results)
    have "fst ?fetch = [(1000, 1250)] # fst (fetch_loop 721 tokenContract 1500 1251 1500 ([] @ concat results))"
      by (subst fetch_loop_continue [OF _ b Inr]) simp_all
    then show ?thesis by (simp add: fetch_loop_stop)
  qed
  then show ?thesis
    by (simp add: script_def queried_main fst_sequenced BLOCK_SIZE_def)
qed

text \<open>
  The same in general: no chunk queried in any run contains \<^verbatim>\<open>BLOCK_TO\<close>, and a range
  of at most \<open>BLOCK_SIZE + 1\<close> blocks is not queried at all.
\<close>

lemma last_block_never_queried:
  assumes "(f, t) \<in> set (concat (queried (script argv tokenContract)))"
      and "arg_to argv = Some BLOCK_TO"
  shows "t < BLOCK_TO"
proof -
  from assms(1) have "queried (script argv tokenContract) \<noteq> []" by auto
  then obtain std f0 t0 where run: "arg_to argv = Some t0"
    "queried (script argv tokenContract) =
       fst (fetch_loop std tokenContract t0 f0 (min t0 (f0 + BLOCK_SIZE)) [])"
    by (rule script_queried)
  from assms(1) obtain g where g: "g \<in> set (queried (script argv tokenContract))" "(f, t) \<in> set g"
    by auto
  from g(1) have "g \<in> set (fst (fetch_loop std tokenContract t0 f0 (min t0 (f0 + BLOCK_SIZE)) []))"
    by (simp only: run(2))
  from fetch_loop_groups [OF this] g(2) have "t < t0" by auto
  with run(1) assms(2) show ?thesis by simp
qed

lemma short_range_not_queried:
  "t \<le> f + BLOCK_SIZE \<Longrightarrow> queried (main a std (Some f) (Some t) src) = []"
  by (simp add: queried_main fst_sequenced fetch_loop_stop)

text \<open>
  A group that is followed by another has settled in full: every one of its promises is
  fulfilled. So a group with a rejected promise is the last one dispatched.
\<close>

lemma fetch_loop_followed_fulfilled:
  "Suc k < length (fst (fetch_loop std src BLOCK_TO fromBlock toBlock acc)) \<Longrightarrow>
   (f, t) \<in> set (fst (fetch_loop std src BLOCK_TO fromBlock toBlock acc) ! k) \<Longrightarrow>
   \<exists>v. getEventsInRange std src f t = Inr v"
proof (induction std src BLOCK_TO fromBlock toBlock acc arbitrary: k rule: fetch_loop_iterations)
  case (stop std src BLOCK_TO fromBlock toBlock acc)
  then show ?case by (simp add: fetch_loop_stop)
next
  case (reject std src BLOCK_TO fromBlock toBlock acc fromBlock' toBlock' promises e)
  from reject(4) show ?case by (simp add: fetch_loop_reject [OF reject(1-3)])
next
  case (continue std src BLOCK_TO fromBlock toBlock acc fromBlock' toBlock' promises results)
  let ?rest = "fst (fetch_loop std src BLOCK_TO fromBlock' toBlock' (acc @ concat results))"
  have groups: "fst (fetch_loop std src BLOCK_TO fromBlock toBlock acc) = promises # ?rest"
    by (simp add: fetch_loop_continue [OF continue(1-3)])
  show ?case
  proof (cases k)
    case 0
    with continue(6) groups have "(f, t) \<in> set promises" by simp
    then have "getEventsInRange std src f t
                 \<in> set (map (\<lambda>(f, t). getEventsInRange std src f t) promises)"
      by force
    from promise_all_fulfilled [OF continue(3) this] show ?thesis .
  next
    case (Suc j)
    with continue(5,6) groups have "Suc j < length ?rest" "(f, t) \<in> set (?rest ! j)"
      by simp_all
    then show ?thesis by (rule continue(4))
  qed
qed

text \<open>
  C8. Chunk queries are dispatched in groups of at most 11, every group but the last of
  exactly 11, and a group is dispatched only when the group before it has settled: every
  promise of a group that is followed by another group is fulfilled, and a group with a
  rejected promise is the last one dispatched. Queries of two groups are therefore never
  outstanding together, which bounds the outstanding queries by 11.
\<close>

theorem fetch_groups_of_eleven:
  assumes "arg_erc argv = Some ERC_STANDARD"
      and "k < length (queried (script argv tokenContract))"
  shows "length (queried (script argv tokenContract) ! k) \<le> 11 \<and>
         (Suc k < length (queried (script argv tokenContract)) \<longrightarrow>
            length (queried (script argv tokenContract) ! k) = 11 \<and>
            (\<forall>(f, t) \<in> set (queried (script argv tokenContract) ! k).
               \<exists>v. getEventsInRange ERC_STANDARD tokenContract f t = Inr v)) \<and>
         ((\<exists>(f, t) \<in> set (queried (script argv tokenContract) ! k).
             \<exists>e. getEventsInRange ERC_STANDARD tokenContract f t = Inl e) \<longrightarrow>
            Suc k = length (queried (script argv tokenContract)))"
proof -
  from assms(2) have "queried (script argv tokenContract) \<noteq> []" by auto
  then obtain std f0 t0 where run: "arg_erc argv = Some std"
    "queried (script argv tokenContract) =
       fst (fetch_loop std tokenContract t0 f0 (min t0 (f0 + BLOCK_SIZE)) [])"
    by (rule script_queried)
  from run(1) assms(1) have std: "std = ERC_STANDARD" by simp
  let ?Q = "queried (script argv tokenContract)"
  have Q: "?Q = fst (fetch_loop ERC_STANDARD tokenContract t0 f0 (min t0 (f0 + BLOCK_SIZE)) [])"
    using run(2) std by simp
  from assms(2) have "?Q ! k \<in> set ?Q" by simp
  then have size: "length (?Q ! k) \<le> 11"
    using fetch_loop_groups [of "?Q ! k" ERC_STANDARD tokenContract t0 f0 "min t0 (f0 + BLOCK_SIZE)" "[]"]
    by (simp add: Q [symmetric] BATCH_NUMBER_def)
  have full: "length (?Q ! k) = 11" if "Suc k < length ?Q"
    using that fetch_loop_full_groups [of k ERC_STANDARD tokenContract t0 f0 "min t0 (f0 + BLOCK_SIZE)" "[]"]
    by (simp add: Q [symmetric] BATCH_NUMBER_def)
  have settled: "\<exists>v. getEventsInRange ERC_STANDARD tokenContract f t = Inr v"
    if "Suc k < length ?Q" "(f, t) \<in> set (?Q ! k)" for f t
    using that fetch_loop_followed_fulfilled [of k ERC_STANDARD tokenContract t0 f0 "min t0 (f0 + BLOCK_SIZE)" "[]" f t]
    by (simp add: Q [symmetric])
  have last: "Suc k = length ?Q"
    if "(f, t) \<in> set (?Q ! k)" "getEventsInRange ERC_STANDARD tokenContract f t = Inl e" for f t e
  proof (rule ccontr)
    assume "Suc k \<noteq> length ?Q"
    with assms(2) have "Suc k < length ?Q" by simp
    from settled [OF this that(1)] that(2) show False by simp
  qed
  from size full settled last show ?thesis by blast
qed

text \<open>
  C8 on the range 0 to 4000 with a source that answers every query, which takes two
  groups, the first of 11 fulfilled queries; and on the range 1000 to 1500 with a source
  that fails, where the group of the failed query is the only one.
\<close>

theorem fetch_groups_of_eleven_witness:
  "arg_erc \<lparr>arg_contract = Some ''0x06012c8cf97BEaD5deAe237070F9587f8E7A266d'',
            arg_erc = Some 721, arg_from = Some 0, arg_to = Some 4000\<rparr> = Some 721 \<and>
   Suc 0 < length (queried (script
      \<lparr>arg_contract = Some ''0x06012c8cf97BEaD5deAe237070F9587f8E7A266d'',
       arg_erc = Some 721, arg_from = Some 0, arg_to = Some 4000\<rparr>
      \<lparr>queryTransfer = (\<lambda>f t. Inr []),
       queryTransferSingle = (\<lambda>f t. Inr []),
       queryTransferBatch = (\<lambda>f t. Inr [])\<rparr>)) \<and>
   length (queried (script
      \<lparr>arg_contract = Some ''0x06012c8cf97BEaD5deAe237070F9587f8E7A266d'',
       arg_erc = Some 721, arg_from = Some 0, arg_to = Some 4000\<rparr>
      \<lparr>queryTransfer = (\<lambda>f t. Inr []),
       queryTransferSingle = (\<lambda>f t. Inr []),
       queryTransferBatch = (\<lambda>f t. Inr [])\<rparr>) ! 0) = 11 \<and>
   list_all (\<lambda>(f, t). \<exists>v. getEventsInRange 721
      \<lparr>queryTransfer = (\<lambda>f t. Inr []),
       queryTransferSingle = (\<lambda>f t. Inr []),
       queryTransferBatch = (\<lambda>f t. Inr [])\<rparr> f t = Inr v)
     (queried (script
      \<lparr>arg_contract = Some ''0x06012c8cf97BEaD5deAe237070F9587f8E7A266d'',
       arg_erc = Some 721, arg_from = Some 0, arg_to = Some 4000\<rparr>
      \<lparr>queryTransfer = (\<lambda>f t. Inr []),
       queryTransferSingle = (\<lambda>f t. Inr []),
       queryTransferBatch = (\<lambda>f t. Inr [])\<rparr>) ! 0) \<and>
   (1000, 1250) \<in> set (queried (script
      \<lparr>arg_contract = Some ''0x06012c8cf97BEaD5deAe237070F9587f8E7A266d'',
       arg_erc = Some 721, arg_from = Some 1000, arg_to = Some 1500\<rparr>
      \<lparr>queryTransfer = (\<lambda>f t. Inl (QueryFailed ''timeout'')),
       queryTransferSingle = (\<lambda>f t. Inr []),
       queryTransferBatch = (\<lambda>f t. Inr [])\<rparr>) ! 0) \<and>
   getEventsInRange 721
      \<lparr>queryTransfer = (\<lambda>f t. Inl (QueryFailed ''timeout'')),
       queryTransferSingle = (\<lambda>f t. Inr []),
       queryTransferBatch = (\<lambda>f t. Inr [])\<rparr> 1000 1250 = Inl (QueryFailed ''timeout'') \<and>
   Suc 0 = length (queried (script
      \<lparr>arg_contract = Some ''0x06012c8cf97BEaD5deAe237070F9587f8E7A266d'',
       arg_erc = Some 721, arg_from = Some 1000, arg_to = Some 1500\<rparr>
      \<lparr>queryTransfer = (\<lambda>f t. Inl (QueryFailed ''timeout'')),
       queryTransferSingle = (\<lambda>f t. Inr []),
       queryTransferBatch = (\<lambda>f t. Inr [])\<rparr>))"
proof -
  let ?argv = "\<lparr>arg_contract = Some ''0x06012c8cf97BEaD5deAe237070F9587f8E7A266d'',
       arg_erc = Some (721::int), arg_from = Some (0::int), arg_to = Some (4000::int)\<rparr>"
  let ?src = "\<lparr>queryTransfer = (\<lambda>f t. Inr []),
       queryTransferSingle = (\<lambda>f t. Inr []),
       queryTransferBatch = (\<lambda>f t. Inr [])\<rparr>"
  let ?argv' = "\<lparr>arg_contract = Some ''0x06012c8cf97BEaD5deAe237070F9587f8E7A266d'',
       arg_erc = Some (721::int), arg_from = Some (1000::int), arg_to = Some (1500::int)\<rparr>"
  let ?src' = "\<lparr>queryTransfer = (\<lambda>f t. Inl (QueryFailed ''timeout'')),
       queryTransferSingle = (\<lambda>f t. Inr []),
       queryTransferBatch = (\<lambda>f t. Inr [])\<rparr>"
  have s: "arg_erc ?argv = Some 721" "arg_erc ?argv' = Some 721" by simp_all
  have h: "Suc 0 < length (queried (script ?argv ?src))"
    by code_simp
  then have h0: "0 < length (queried (script ?argv ?src))" by (rule Suc_lessD)
  from fetch_groups_of_eleven [OF s(1) h0] h
  have full: "length (queried (script ?argv ?src) ! 0) = 11"
    and settled: "\<forall>(f, t) \<in> set (queried (script ?argv ?src) ! 0).
                    \<exists>v. getEventsInRange 721 ?src f t = Inr v"
    by blast+
  have q: "queried (script ?argv' ?src') = [[(1000, 1250)]]"
    by (simp add: script_def main_def sequenced_def fetch_loop.simps batch_loop.simps
          BLOCK_SIZE_def BATCH_NUMBER_def getEventsInRange_def)
  then have k: "0 < length (queried (script ?argv' ?src'))"
    and m: "(1000, 1250) \<in> set (queried (script ?argv' ?src') ! 0)"
    by simp_all
  have r: "getEventsInRange 721 ?src' 1000 1250 = Inl (QueryFailed ''timeout'')"
    by (simp add: getEventsInRange_def)
  from fetch_groups_of_eleven [OF s(2) k] m r
  have last: "Suc 0 = length (queried (script ?argv' ?src'))" by blast
  from settled have "list_all (\<lambda>(f, t). \<exists>v. getEventsInRange 721 ?src f t = Inr v)
                       (queried (script ?argv ?src) ! 0)"
    by (simp only: list_all_iff)
  with s(1) h full m r last show ?thesis by blast
qed

text \<open>
  C5. If the promise of any chunk queried in a run rejects, as it does when a query
  against the event source fails, the run exits with status 1 and writes no file; the
  records of the chunks fetched before are dropped with it.
\<close>

theorem chunk_failure_aborts:
  assumes "(f, t) \<in> set (concat (queried (script argv tokenContract)))"
      and "arg_erc argv = Some ERC_STANDARD"
      and "getEventsInRange ERC_STANDARD tokenContract f t = Inl e"
  shows "exit_status (script argv tokenContract) = 1 \<and>
         written (script argv tokenContract) = None"
proof -
  from assms(1) have "queried (script argv tokenContract) \<noteq> []" by auto
  then obtain a std f0 t0 where run:
    "arg_erc argv = Some std"
    "script argv tokenContract = main a std (Some f0) (Some t0) tokenContract"
    "sequenced std (Some f0) (Some t0) tokenContract =
       (fst (fetch_loop std tokenContract t0 f0 (min t0 (f0 + BLOCK_SIZE)) []),
        case snd (fetch_loop std tokenContract t0 f0 (min t0 (f0 + BLOCK_SIZE)) []) of
          Inl e \<Rightarrow> Inl e | Inr rs \<Rightarrow> sort_by compare_transfers rs)"
    "queried (script argv tokenContract) =
       fst (fetch_loop std tokenContract t0 f0 (min t0 (f0 + BLOCK_SIZE)) [])"
    by (rule script_queried)
  from run(1) assms(2) have std: "std = ERC_STANDARD" by simp
  let ?fetch = "fetch_loop std tokenContract t0 f0 (min t0 (f0 + BLOCK_SIZE)) []"
  have "\<exists>e'. snd ?fetch = Inl e'"
  proof (cases "snd ?fetch")
    case (Inl e')
    then show ?thesis by simp
  next
    case (Inr rs)
    from fetch_loop_all_fulfilled [OF Inr] assms(1) run(4)
    have "\<exists>v. getEventsInRange std tokenContract f t = Inr v" by simp
    with assms(3) std show ?thesis by simp
  qed
  then obtain e' where "snd (sequenced std (Some f0) (Some t0) tokenContract) = Inl e'"
    by (auto simp: run(3))
  from main_rejected [OF this] run(2) show ?thesis by simp
qed

text \<open>C5 on a source whose every \<^verbatim>\<open>Transfer\<close> query fails.\<close>

theorem chunk_failure_aborts_witness:
  "(1000, 1250) \<in> set (concat (queried (script
      \<lparr>arg_contract = Some ''0x06012c8cf97BEaD5deAe237070F9587f8E7A266d'',
       arg_erc = Some 721, arg_from = Some 1000, arg_to = Some 1500\<rparr>
      \<lparr>queryTransfer = (\<lambda>f t. Inl (QueryFailed ''timeout'')),
       queryTransferSingle = (\<lambda>f t. Inr []),
       queryTransferBatch = (\<lambda>f t. Inr [])\<rparr>))) \<and>
   getEventsInRange 721
      \<lparr>queryTransfer = (\<lambda>f t. Inl (QueryFailed ''timeout'')),
       queryTransferSingle = (\<lambda>f t. Inr []),
       queryTransferBatch = (\<lambda>f t. Inr [])\<rparr> 1000 1250 = Inl (QueryFailed ''timeout'') \<and>
   exit_status (script
      \<lparr>arg_contract = Some ''0x06012c8cf97BEaD5deAe237070F9587f8E7A266d'',
       arg_erc = Some 721, arg_from = Some 1000, arg_to = Some 1500\<rparr>
      \<lparr>queryTransfer = (\<lambda>f t. Inl (QueryFailed ''timeout'')),
       queryTransferSingle = (\<lambda>f t. Inr []),
       queryTransferBatch = (\<lambda>f t. Inr [])\<rparr>) = 1 \<and>
   written (script
      \<lparr>arg_contract = Some ''0x06012c8cf97BEaD5deAe237070F9587f8E7A266d'',
       arg_erc = Some 721, arg_from = Some 1000, arg_to = Some 1500\<rparr>
      \<lparr>queryTransfer = (\<lambda>f t. Inl (QueryFailed ''timeout'')),
       queryTransferSingle = (\<lambda>f t. Inr []),
       queryTransferBatch = (\<lambda>f t. Inr [])\<rparr>) = None"
proof -
  let ?argv = "\<lparr>arg_contract = Some ''0x06012c8cf97BEaD5deAe237070F9587f8E7A266d'',
       arg_erc = Some (721::int), arg_from = Some (1000::int), arg_to = Some (1500::int)\<rparr>"
  let ?src = "\<lparr>queryTransfer = (\<lambda>f t. Inl (QueryFailed ''timeout'')),
       queryTransferSingle = (\<lambda>f t. Inr []),
       queryTransferBatch = (\<lambda>f t. Inr [])\<rparr>"
  have q: "(1000, 1250) \<in> set (concat (queried (script ?argv ?src)))"
    by (simp add: script_def main_def sequenced_def fetch_loop.simps batch_loop.simps
          BLOCK_SIZE_def BATCH_NUMBER_def getEventsInRange_def)
  have s: "arg_erc ?argv = Some 721" by simp
  have r: "getEventsInRange 721 ?src 1000 1250 = Inl (QueryFailed ''timeout'')"
    by (simp add: getEventsInRange_def)
  from chunk_failure_aborts [OF q s r] q r show ?thesis by blast
qed

section \<open>Properties of the whole script\<close>

text \<open>
  C4 claims a non-zero exit status for every invalid configuration. The script prints
  its diagnostic and issues no query, but ends with \<^verbatim>\<open>process.exit()\<close>, that is with
  status 0, for an address of the wrong length (the one of the usage example of line
  17), for an unknown standard and for ERC-20 alike; only the \<^verbatim>\<open>catch\<close> handler of
  line 210 passes a status.
\<close>

theorem invalid_configuration_exits_zero:
  "script \<lparr>arg_contract = Some ''0x0'', arg_erc = Some 721,
           arg_from = Some 1000, arg_to = Some 2000\<rparr> tokenContract =
     \<lparr>console_error = [Message ''Invalid Token Contract Address''],
      exit_status = 0, queried = [], written = None\<rparr> \<and>
   script \<lparr>arg_contract = Some ''0x06012c8cf97BEaD5deAe237070F9587f8E7A266d'', arg_erc = Some 777,
           arg_from = Some 1000, arg_to = Some 2000\<rparr> tokenContract =
     \<lparr>console_error = [Message ''Invalid Token ERC Standard''],
      exit_status = 0, queried = [], written = None\<rparr> \<and>
   script \<lparr>arg_contract = Some ''0x06012c8cf97BEaD5deAe237070F9587f8E7A266d'', arg_erc = Some 20,
           arg_from = Some 1000, arg_to = Some 2000\<rparr> tokenContract =
     \<lparr>console_error = [Message ''Not currently supported''],
      exit_status = 0, queried = [], written = None\<rparr>"
  by (simp add: script_def exit_default_def)

text \<open>The same for every configuration the validation rejects.\<close>

lemma invalid_configuration:
  "arg_contract argv = None \<or> (\<exists>a. arg_contract argv = Some a \<and> length a \<noteq> 42) \<or>
   arg_erc argv = None \<or> (\<exists>s. arg_erc argv = Some s \<and> s \<noteq> 721 \<and> s \<noteq> 1155) \<Longrightarrow>
   exit_status (script argv tokenContract) = 0 \<and>
   queried (script argv tokenContract) = [] \<and>
   written (script argv tokenContract) = None \<and>
   (\<exists>m. console_error (script argv tokenContract) = [Message m])"
  by (auto simp: script_def exit_default_def split: option.splits)

text \<open>
  C6. The ledger a run writes depends on nothing but the ordered sequence of records it
  replays: two runs that replay the same sequence, for whatever contract, standard,
  block range and event source, write identical ledgers, namely the replay of that
  sequence from the empty ledger.
\<close>

theorem replay_depends_on_sequence_only:
  assumes "snd (sequenced std1 from1 to1 src1) = Inr rs"
      and "snd (sequenced std2 from2 to2 src2) = Inr rs"
  shows "\<exists>L. written (main a1 std1 from1 to1 src1) = Some (a1, to1, L) \<and>
             written (main a2 std2 from2 to2 src2) = Some (a2, to2, L) \<and>
             L = replay_from Map.empty rs"
  using main_completed [OF assms(1), of a1] main_completed [OF assms(2), of a2]
  by (simp add: replay_def)

text \<open>
  C6 on an ERC-721 run and an ERC-1155 run of different contracts and block ranges that
  both see the one transfer of token 7 from A to B.
\<close>

theorem replay_depends_on_sequence_only_witness:
  "snd (sequenced 721 (Some 0) (Some 300)
     \<lparr>queryTransfer = (\<lambda>f t. Inr
        [\<lparr>blockNumber = 100, transactionIndex = 2, logIndex = 5,
          t_from = ''A'', t_to = ''B'', t_tokenId = 7\<rparr>]),
      queryTransferSingle = (\<lambda>f t. Inr []),
      queryTransferBatch = (\<lambda>f t. Inr [])\<rparr>) =
     Inr [\<lparr>blockNumber = 100, transactionIndex = 2, logIndex = 5,
           from_addr = ''A'', to_addr = ''B'', id_str = ''7'', amount = 1\<rparr>] \<and>
   snd (sequenced 1155 (Some 50) (Some 500)
     \<lparr>queryTransfer = (\<lambda>f t. Inl (QueryFailed ''unused'')),
      queryTransferSingle = (\<lambda>f t. Inr
        [\<lparr>blockNumber = 100, transactionIndex = 2, logIndex = 5,
          ts_from = ''A'', ts_to = ''B'', ts_id = 7, ts_amount = 1\<rparr>]),
      queryTransferBatch = (\<lambda>f t. Inr [])\<rparr>) =
     Inr [\<lparr>blockNumber = 100, transactionIndex = 2, logIndex = 5,
           from_addr = ''A'', to_addr = ''B'', id_str = ''7'', amount = 1\<rparr>] \<and>
   (\<exists>L. written (main ''0x06012c8cf97BEaD5deAe237070F9587f8E7A266d'' 721 (Some 0) (Some 300)
     \<lparr>queryTransfer = (\<lambda>f t. Inr
        [\<lparr>blockNumber = 100, transactionIndex = 2, logIndex = 5,
          t_from = ''A'', t_to = ''B'', t_tokenId = 7\<rparr>]),
      queryTransferSingle = (\<lambda>f t. Inr []),
      queryTransferBatch = (\<lambda>f t. Inr [])\<rparr>)
        = Some (''0x06012c8cf97BEaD5deAe237070F9587f8E7A266d'', Some 300, L) \<and>
      written (main ''0xd07dc4262BCDbf85190C01c996b4C06a461d2430'' 1155 (Some 50) (Some 500)
     \<lparr>queryTransfer = (\<lambda>f t. Inl (QueryFailed ''unused'')),
      queryTransferSingle = (\<lambda>f t. Inr
        [\<lparr>blockNumber = 100, transactionIndex = 2, logIndex = 5,
          ts_from = ''A'', ts_to = ''B'', ts_id = 7, ts_amount = 1\<rparr>]),
      queryTransferBatch = (\<lambda>f t. Inr [])\<rparr>)
        = Some (''0xd07dc4262BCDbf85190C01c996b4C06a461d2430'', Some 500, L))"
proof -
  let ?rs = "[\<lparr>blockNumber = 100, transactionIndex = 2, logIndex = (5::int),
           from_addr = ''A'', to_addr = ''B'', id_str = ''7'', amount = (1::int)\<rparr>]"
  let ?src1 = "\<lparr>queryTransfer = (\<lambda>f t. Inr
        [\<lparr>blockNumber = 100, transactionIndex = 2, logIndex = (5::int),
          t_from = ''A'', t_to = ''B'', t_tokenId = (7::nat)\<rparr>]),
      queryTransferSingle = (\<lambda>f t. Inr []),
      queryTransferBatch = (\<lambda>f t. Inr [])\<rparr>"
  let ?src2 = "\<lparr>queryTransfer = (\<lambda>f t. Inl (QueryFailed ''unused'')),
      queryTransferSingle = (\<lambda>f t. Inr
        [\<lparr>blockNumber = 100, transactionIndex = 2, logIndex = (5::int),
          ts_from = ''A'', ts_to = ''B'', ts_id = (7::nat), ts_amount = (1::nat)\<rparr>]),
      queryTransferBatch = (\<lambda>f t. Inr [])\<rparr>"
  have 1: "snd (sequenced 721 (Some 0) (Some 300) ?src1) = Inr ?rs"
    by (simp add: sequenced_def fetch_loop.simps batch_loop.simps BLOCK_SIZE_def
          BATCH_NUMBER_def getEventsInRange_def transfer_record_def toString_digits)
  have 2: "snd (sequenced 1155 (Some 50) (Some 500) ?src2) = Inr ?rs"
    by (simp add: sequenced_def fetch_loop.simps batch_loop.simps BLOCK_SIZE_def
          BATCH_NUMBER_def getEventsInRange_def single_record_def toNumber_def toString_digits)
  from replay_depends_on_sequence_only
         [OF 1 2, of "''0x06012c8cf97BEaD5deAe237070F9587f8E7A266d''"
                     "''0xd07dc4262BCDbf85190C01c996b4C06a461d2430''"]
  obtain L where
    "written (main ''0x06012c8cf97BEaD5deAe237070F9587f8E7A266d'' 721 (Some 0) (Some 300) ?src1)
       = Some (''0x06012c8cf97BEaD5deAe237070F9587f8E7A266d'', Some 300, L)"
    "written (main ''0xd07dc4262BCDbf85190C01c996b4C06a461d2430'' 1155 (Some 50) (Some 500) ?src2)
       = Some (''0xd07dc4262BCDbf85190C01c996b4C06a461d2430'', Some 500, L)"
    by blast
  with 1 2 show ?thesis by (intro conjI exI [of _ L])
qed

section \<open>Properties of the sort\<close>

text \<open>
  The comparator decides by the lexicographic order of the keys and throws exactly on
  equal keys.
\<close>

lemma compare_transfers_cases:
  "compare_transfers a b =
     (if key a < key b then Inr (- 1)
      else if key b < key a then Inr 1
      else Inl (Thrown ''This should never, ever happen''))"
  by (auto simp: compare_transfers_def key_def less_prod_def)

lemma insert_by_compare:
  "sorted (map key ys) \<Longrightarrow> distinct (map key ys) \<Longrightarrow>
   insert_by compare_transfers x ys =
     (if key x \<in> set (map key ys) then Inl (Thrown ''This should never, ever happen'')
      else Inr (insort_key key x ys))"
proof (induction ys)
  case Nil
  show ?case by simp
next
  case (Cons y ys)
  then have IH: "insert_by compare_transfers x ys =
     (if key x \<in> set (map key ys) then Inl (Thrown ''This should never, ever happen'')
      else Inr (insort_key key x ys))"
    by simp
  from Cons.prems have above: "\<forall>z \<in> set ys. key y < key z"
    by (auto simp: less_le)
  consider (lt) "key x < key y" | (gt) "key y < key x" | (eq) "key x = key y"
    by (meson linorder_less_linear)
  then show ?case
  proof cases
    case lt
    then have c: "compare_transfers x y = Inr (- 1)"
      by (simp add: compare_transfers_cases)
    from lt above have "key x \<notin> set (map key (y # ys))" by auto
    moreover from lt have "key x \<le> key y" by (rule less_imp_le)
    ultimately show ?thesis by (simp add: c)
  next
    case gt
    then have c: "compare_transfers x y = Inr 1"
      by (simp add: compare_transfers_cases)
    from gt have "\<not> key x \<le> key y" "key x \<noteq> key y" by auto
    then show ?thesis by (simp add: c IH)
  next
    case eq
    then have c: "compare_transfers x y = Inl (Thrown ''This should never, ever happen'')"
      by (simp add: compare_transfers_cases)
    from eq show ?thesis by (simp add: c)
  qed
qed

text \<open>
  Hence the outcome of the sort: the exception when two records share a key, and
  otherwise the one arrangement of the records in increasing order of their keys. Neither
  depends on which pairs the model compares, since a sort cannot place two records of
  equal key without comparing two such records, and distinct keys leave one sorted order.
\<close>

lemma sort_by_compare:
  "sort_by compare_transfers rs =
     (if distinct (map key rs) then Inr (sort_key key rs)
      else Inl (Thrown ''This should never, ever happen''))"
proof (induction rs)
  case Nil
  show ?case by simp
next
  case (Cons x xs)
  show ?case
  proof (cases "distinct (map key xs)")
    case False
    with Cons show ?thesis by simp
  next
    case True
    have "sorted (map key (sort_key key xs))" "distinct (map key (sort_key key xs))"
      using True by (simp_all add: distinct_map)
    from insert_by_compare [OF this] Cons True show ?thesis
      by simp
  qed
qed

text \<open>
  C2 (amended). The sort of lines 79-99 completes exactly when no two records share a
  (blockNumber, transactionIndex, logIndex) key. It then returns a permutation of its
  input that is strictly increasing under the key, hence non-decreasing for every
  adjacent pair; since no two keys are equal, nothing is left for stability to decide.
  When two records share a key, the comparator's \<^verbatim>\<open>throw\<close> of line 98 leaves the sort.
\<close>

theorem sort_completes_iff_keys_distinct:
  "(distinct (map key rs) \<longrightarrow>
      (\<exists>out. sort_by compare_transfers rs = Inr out \<and> mset out = mset rs \<and>
             sorted_wrt (\<lambda>a b. key a < key b) out)) \<and>
   (\<not> distinct (map key rs) \<longrightarrow>
      sort_by compare_transfers rs = Inl (Thrown ''This should never, ever happen''))"
proof (intro conjI impI)
  assume d: "distinct (map key rs)"
  have "sorted (map key (sort_key key rs))" "distinct (map key (sort_key key rs))"
    using d by (simp_all add: distinct_map)
  then have "sorted_wrt (<) (map key (sort_key key rs))"
    by (simp add: strict_sorted_iff)
  then have "sorted_wrt (\<lambda>a b. key a < key b) (sort_key key rs)"
    by (simp add: sorted_wrt_map)
  with d show "\<exists>out. sort_by compare_transfers rs = Inr out \<and> mset out = mset rs \<and>
                     sorted_wrt (\<lambda>a b. key a < key b) out"
    by (simp add: sort_by_compare)
next
  assume "\<not> distinct (map key rs)"
  then show "sort_by compare_transfers rs = Inl (Thrown ''This should never, ever happen'')"
    by (simp add: sort_by_compare)
qed

text \<open>
  Both halves at concrete inputs: two records in descending order are put in ascending
  order, and two records of the same log entry make the sort throw.
\<close>

theorem sort_completes_iff_keys_distinct_witness:
  "distinct (map key
     [\<lparr>blockNumber = 7, transactionIndex = 1, logIndex = 4,
        from_addr = ''A'', to_addr = ''B'', id_str = ''1'', amount = 1\<rparr>,
      \<lparr>blockNumber = 7, transactionIndex = 0, logIndex = 2,
        from_addr = ''B'', to_addr = ''C'', id_str = ''2'', amount = 1\<rparr>]) \<and>
   (\<exists>out. sort_by compare_transfers
     [\<lparr>blockNumber = 7, transactionIndex = 1, logIndex = 4,
        from_addr = ''A'', to_addr = ''B'', id_str = ''1'', amount = 1\<rparr>,
      \<lparr>blockNumber = 7, transactionIndex = 0, logIndex = 2,
        from_addr = ''B'', to_addr = ''C'', id_str = ''2'', amount = 1\<rparr>] = Inr out \<and>
      mset out = mset
     [\<lparr>blockNumber = 7, transactionIndex = 1, logIndex = 4,
        from_addr = ''A'', to_addr = ''B'', id_str = ''1'', amount = 1\<rparr>,
      \<lparr>blockNumber = 7, transactionIndex = 0, logIndex = 2,
        from_addr = ''B'', to_addr = ''C'', id_str = ''2'', amount = 1\<rparr>] \<and>
      sorted_wrt (\<lambda>a b. key a < key b) out) \<and>
   \<not> distinct (map key
     [\<lparr>blockNumber = 5, transactionIndex = 0, logIndex = 2,
        from_addr = ''X'', to_addr = ''Y'', id_str = ''1'', amount = 3\<rparr>,
      \<lparr>blockNumber = 5, transactionIndex = 0, logIndex = 2,
        from_addr = ''X'', to_addr = ''Y'', id_str = ''2'', amount = 5\<rparr>]) \<and>
   sort_by compare_transfers
     [\<lparr>blockNumber = 5, transactionIndex = 0, logIndex = 2,
        from_addr = ''X'', to_addr = ''Y'', id_str = ''1'', amount = 3\<rparr>,
      \<lparr>blockNumber = 5, transactionIndex = 0, logIndex = 2,
        from_addr = ''X'', to_addr = ''Y'', id_str = ''2'', amount = 5\<rparr>]
     = Inl (Thrown ''This should never, ever happen'')"
proof -
  let ?asc = "[\<lparr>blockNumber = 7, transactionIndex = 1, logIndex = 4,
        from_addr = ''A'', to_addr = ''B'', id_str = ''1'', amount = 1\<rparr>,
      \<lparr>blockNumber = 7, transactionIndex = 0, logIndex = (2::int),
        from_addr = ''B'', to_addr = ''C'', id_str = ''2'', amount = (1::int)\<rparr>]"
  let ?tie = "[\<lparr>blockNumber = 5, transactionIndex = 0, logIndex = 2,
        from_addr = ''X'', to_addr = ''Y'', id_str = ''1'', amount = 3\<rparr>,
      \<lparr>blockNumber = 5, transactionIndex = 0, logIndex = (2::int),
        from_addr = ''X'', to_addr = ''Y'', id_str = ''2'', amount = (5::int)\<rparr>]"
  have d: "distinct (map key ?asc)" by (simp add: key_def)
  have t: "\<not> distinct (map key ?tie)" by (simp add: key_def)
  from sort_completes_iff_keys_distinct [of ?asc] d
  have 1: "\<exists>out. sort_by compare_transfers ?asc = Inr out \<and> mset out = mset ?asc \<and>
                 sorted_wrt (\<lambda>a b. key a < key b) out"
    by blast
  from sort_completes_iff_keys_distinct [of ?tie] t
  have 2: "sort_by compare_transfers ?tie = Inl (Thrown ''This should never, ever happen'')"
    by blast
  from d 1 t 2 show ?thesis by blast
qed

text \<open>
  C2 as stated fails: the two records that the batch event of the specification's
  example would expand to share their key, and on them the sort raises instead of
  returning them in their input order.
\<close>

theorem sort_tie_counterexample:
  "sort_by compare_transfers
     [\<lparr>blockNumber = 5, transactionIndex = 0, logIndex = 2,
        from_addr = ''X'', to_addr = ''Y'', id_str = ''1'', amount = 3\<rparr>,
      \<lparr>blockNumber = 5, transactionIndex = 0, logIndex = 2,
        from_addr = ''X'', to_addr = ''Y'', id_str = ''2'', amount = 5\<rparr>]
     = Inl (Thrown ''This should never, ever happen'')"
  by (simp add: compare_transfers_def)

section \<open>Properties of the replay\<close>



text \<open>Beyond 53 bits the last bit is lost; the values met in the examples below.\<close>

lemma round_double_values:
  "round_double 0 = 0"
  "round_double (- 18014398509481982) = - 18014398509481982"
  "round_double 18014398509481982 = 18014398509481982"
  "round_double (- 18014398509481983) = - 18014398509481984"
  "round_double (- 9007199254740993) = - 9007199254740992"
  "round_double (- 9007199254740990) = - 9007199254740990"
  by code_simp+

text \<open>
  What one debit and one credit do to the entries, to the set of owners and, where the
  arithmetic is exact, to the balances.
\<close>

lemma entry_debit:
  "entry (debit L t) owner i =
     (if owner = from_addr t \<and> i = id_str t
      then Some (case entry L owner i of
                   None \<Rightarrow> - amount t
                 | Some v \<Rightarrow> round_double (v - amount t))
      else entry L owner i)"
  by (simp add: entry_def debit_def Let_def split: option.splits)

lemma entry_credit:
  "entry (credit L t) owner i =
     (if owner = to_addr t \<and> i = id_str t
      then Some (case entry L owner i of
                   None \<Rightarrow> amount t
                 | Some v \<Rightarrow> round_double (v + amount t))
      else entry L owner i)"
  by (simp add: entry_def credit_def Let_def split: option.splits)

lemma entry_empty: "entry Map.empty owner i = None"
  by (simp add: entry_def)




















text \<open>The loop over a longer list goes on from the ledger of the shorter one.\<close>

lemma replay_from_append:
  "replay_from L (xs @ ys) = replay_from (replay_from L xs) ys"
  by (induction xs arbitrary: L) simp_all

lemma entry_replay_from_persists:
  "entry L owner i \<noteq> None \<Longrightarrow> entry (replay_from L rs) owner i \<noteq> None"
  by (induction rs arbitrary: L) (simp_all add: entry_credit entry_debit)

lemma owner_replay_from_persists:
  "L owner \<noteq> None \<Longrightarrow> replay_from L rs owner \<noteq> None"
  by (induction rs arbitrary: L) (simp_all add: credit_def debit_def Let_def)

text \<open>
  C10. The replay never removes an entry: an entry, and an owner's object, present after
  a prefix of the records is present after any longer prefix. So the final ledger can
  hold an explicit 0, as for B after receiving and passing on one unit, while the
  same balance 0 is also what a missing entry stands for.
\<close>

theorem replay_keeps_entries:
  "(entry (replay xs) owner i \<noteq> None \<longrightarrow> entry (replay (xs @ ys)) owner i \<noteq> None) \<and>
   (replay xs owner \<noteq> None \<longrightarrow> replay (xs @ ys) owner \<noteq> None) \<and>
   entry (replay
      [\<lparr>blockNumber = 3, transactionIndex = 0, logIndex = 0,
         from_addr = ''A'', to_addr = ''B'', id_str = ''7'', amount = 1\<rparr>,
       \<lparr>blockNumber = 4, transactionIndex = 1, logIndex = 5,
         from_addr = ''B'', to_addr = ''C'', id_str = ''7'', amount = 1\<rparr>]) ''B'' ''7'' = Some 0 \<and>
   entry (replay []) ''B'' ''7'' = None \<and>
   balance (replay []) ''B'' ''7'' = 0"
proof (intro conjI impI)
  assume "entry (replay xs) owner i \<noteq> None"
  then show "entry (replay (xs @ ys)) owner i \<noteq> None"
    by (simp add: replay_def replay_from_append entry_replay_from_persists)
next
  assume "replay xs owner \<noteq> None"
  then show "replay (xs @ ys) owner \<noteq> None"
    by (simp add: replay_def replay_from_append owner_replay_from_persists)
next
  show "entry (replay
      [\<lparr>blockNumber = 3, transactionIndex = 0, logIndex = 0,
         from_addr = ''A'', to_addr = ''B'', id_str = ''7'', amount = 1\<rparr>,
       \<lparr>blockNumber = 4, transactionIndex = 1, logIndex = 5,
         from_addr = ''B'', to_addr = ''C'', id_str = ''7'', amount = 1\<rparr>]) ''B'' ''7'' = Some 0"
    by (simp add: replay_def entry_credit entry_debit entry_empty round_double_values)
next
  show "entry (replay []) ''B'' ''7'' = None" by (simp add: replay_def entry_def)
next
  show "balance (replay []) ''B'' ''7'' = 0" by (simp add: replay_def balance_def entry_def)
qed

text \<open>C10 at the two transfers above: B's entry exists after the first and after both.\<close>

theorem replay_keeps_entries_witness:
  "entry (replay
      [\<lparr>blockNumber = 3, transactionIndex = 0, logIndex = 0,
         from_addr = ''A'', to_addr = ''B'', id_str = ''7'', amount = 1\<rparr>]) ''B'' ''7'' \<noteq> None \<and>
   entry (replay
      ([\<lparr>blockNumber = 3, transactionIndex = 0, logIndex = 0,
         from_addr = ''A'', to_addr = ''B'', id_str = ''7'', amount = 1\<rparr>] @
       [\<lparr>blockNumber = 4, transactionIndex = 1, logIndex = 5,
         from_addr = ''B'', to_addr = ''C'', id_str = ''7'', amount = 1\<rparr>])) ''B'' ''7'' \<noteq> None \<and>
   replay
      [\<lparr>blockNumber = 3, transactionIndex = 0, logIndex = 0,
         from_addr = ''A'', to_addr = ''B'', id_str = ''7'', amount = 1\<rparr>] ''B'' \<noteq> None \<and>
   replay
      ([\<lparr>blockNumber = 3, transactionIndex = 0, logIndex = 0,
         from_addr = ''A'', to_addr = ''B'', id_str = ''7'', amount = 1\<rparr>] @
       [\<lparr>blockNumber = 4, transactionIndex = 1, logIndex = 5,
         from_addr = ''B'', to_addr = ''C'', id_str = ''7'', amount = 1\<rparr>]) ''B'' \<noteq> None"
proof -
  let ?xs = "[\<lparr>blockNumber = 3, transactionIndex = 0, logIndex = (0::int),
         from_addr = ''A'', to_addr = ''B'', id_str = ''7'', amount = (1::int)\<rparr>]"
  let ?ys = "[\<lparr>blockNumber = 4, transactionIndex = 1, logIndex = (5::int),
         from_addr = ''B'', to_addr = ''C'', id_str = ''7'', amount = (1::int)\<rparr>]"
  have e: "entry (replay ?xs) ''B'' ''7'' \<noteq> None"
    by (simp add: replay_def entry_credit)
  have o: "replay ?xs ''B'' \<noteq> None"
    by (simp add: replay_def credit_def debit_def Let_def)
  from replay_keeps_entries [of ?xs "''B''" "''7''" ?ys] e o
  have "entry (replay (?xs @ ?ys)) ''B'' ''7'' \<noteq> None" "replay (?xs @ ?ys) ''B'' \<noteq> None"
    by blast+
  with e o show ?thesis by blast
qed

end
